theory Spec2Isabelle
  imports Complex_Main "HOL-Library.Word"
begin

section \<open>The pathgrid editor of the scene view (apps/opencs/view/render/pathgrid.cpp)\<close>

text \<open>
  A shallow embedding of \<^verbatim>\<open>CSVRender::Pathgrid\<close>. The object's fields are a record, every
  member function takes the record (and the document's pathgrid collection, which the object
  only holds by reference) and returns the updated record. Functions that push commands take
  the command macro as a list and return the extended list.

  Node indices are \<^verbatim>\<open>unsigned short\<close> in the source and 16-bit words here. Values of type
  \<^verbatim>\<open>int\<close> and \<^verbatim>\<open>size_t\<close> are row counts and row positions of vectors held in
  memory; they are modelled by \<open>int\<close> and \<open>nat\<close>. The only narrowing conversion that can lose
  information at such sizes is the cast of the point count to \<^verbatim>\<open>unsigned short\<close> in
  \<^verbatim>\<open>selectAll\<close> and \<^verbatim>\<open>invertSelected\<close>, and it is modelled with its truncation.
\<close>

subsection \<open>The persisted graph and the collection that holds it\<close>

type_synonym node = "16 word"

record Point =
  mX :: int
  mY :: int
  mZ :: int

record Edge =
  mV0 :: int
  mV1 :: int

record CSMWorld_Pathgrid =
  mPoints :: "Point list"
  mEdges :: "Edge list"

text \<open>
  Modelled from the spec: the pathgrid collection of the document
  (\<^verbatim>\<open>CSMWorld::SubCellCollection<Pathgrid>\<close>, declared outside the excerpt). A record of the
  collection carries its id, its soft-delete state and the graph; \<^verbatim>\<open>searchId\<close> gives the
  row of the record with that id or \<open>-1\<close>, \<^verbatim>\<open>getRecord\<close> the record of a row.
\<close>

record Record =
  rec_id :: string
  isDeleted :: bool
  rec_get :: CSMWorld_Pathgrid

type_synonym collection = "Record list"

fun searchId_from :: "Record list \<Rightarrow> string \<Rightarrow> nat \<Rightarrow> int" where
  "searchId_from [] i n = -1"
| "searchId_from (r # rs) i n = (if rec_id r = i then int n else searchId_from rs i (Suc n))"

definition searchId :: "collection \<Rightarrow> string \<Rightarrow> int" where
  "searchId c i = searchId_from c i 0"

definition getRecord :: "collection \<Rightarrow> int \<Rightarrow> Record" where
  "getRecord c index = c ! nat index"

text \<open>
  Modelled from the spec: \<^verbatim>\<open>Collection::getIndex\<close> is declared outside the excerpt. It is
  the row of the record with that id, as \<^verbatim>\<open>searchId\<close> gives it; the source calls it only
  after the graph has been resolved, when the record is present.
\<close>

definition getIndex :: "collection \<Rightarrow> string \<Rightarrow> int" where
  "getIndex c i = searchId c i"

subsection \<open>Drawables\<close>

text \<open>
  Modelled from the spec: the two wireframe builders of \<^verbatim>\<open>SceneUtil\<close>
  (\<^verbatim>\<open>createPathgridGeometry\<close>, \<^verbatim>\<open>createPathgridSelectedWireframe\<close>) are outside the
  excerpt. A drawable is identified by the builder that made it and the arguments it was
  made from. A geode of the object holds exactly the drawable its slot points to, so the
  slot alone is kept.
\<close>

datatype drawable =
  createPathgridGeometry CSMWorld_Pathgrid
| createPathgridSelectedWireframe CSMWorld_Pathgrid "node list"

subsection \<open>The object\<close>

type_synonym vec3 = "real \<times> real \<times> real"

record Pathgrid =
  mId :: string
  mCoords :: "int \<times> int"
  mInterior :: bool
  mSelected :: "node list"
  mConnectionIndicator :: bool
  mConnectionNode :: node
  mChangeGeometry :: bool
  mRemoveGeometry :: bool
  mPathgridGeometry :: "drawable option"
  mSelectedGeometry :: "drawable option"
  mSelectedNode_position :: vec3

definition getPathgridSource :: "collection \<Rightarrow> Pathgrid \<Rightarrow> CSMWorld_Pathgrid option" where
  "getPathgridSource c s =
     (let index = searchId c (mId s)
      in if index \<noteq> -1 \<and> \<not> isDeleted (getRecord c index)
         then Some (rec_get (getRecord c index))
         else None)"

definition removePathgridGeometry :: "Pathgrid \<Rightarrow> Pathgrid" where
  "removePathgridGeometry s =
     (if mPathgridGeometry s \<noteq> None then s\<lparr>mPathgridGeometry := None\<rparr> else s)"

definition removeSelectedGeometry :: "Pathgrid \<Rightarrow> Pathgrid" where
  "removeSelectedGeometry s =
     (if mSelectedGeometry s \<noteq> None then s\<lparr>mSelectedGeometry := None\<rparr> else s)"

text \<open>\<^verbatim>\<open>std::find\<close> followed by \<^verbatim>\<open>erase\<close> removes the first occurrence only.\<close>

definition createSelectedGeometry_source :: "CSMWorld_Pathgrid \<Rightarrow> Pathgrid \<Rightarrow> Pathgrid" where
  "createSelectedGeometry_source source s0 =
     (let s = removeSelectedGeometry s0
      in if mConnectionIndicator s
         then (let tempList = mSelected s;
                   tempList = (if mConnectionNode s \<in> set tempList
                               then remove1 (mConnectionNode s) tempList else tempList);
                   tempList = tempList @ [mConnectionNode s]
               in s\<lparr>mSelectedGeometry := Some (createPathgridSelectedWireframe source tempList)\<rparr>)
         else s\<lparr>mSelectedGeometry := Some (createPathgridSelectedWireframe source (mSelected s))\<rparr>)"

definition createSelectedGeometry :: "collection \<Rightarrow> Pathgrid \<Rightarrow> Pathgrid" where
  "createSelectedGeometry c s =
     (case getPathgridSource c s of
        Some source \<Rightarrow> createSelectedGeometry_source source s
      | None \<Rightarrow> removeSelectedGeometry s)"

definition recreateGeometry :: "Pathgrid \<Rightarrow> Pathgrid" where
  "recreateGeometry s = s\<lparr>mChangeGeometry := True\<rparr>"

definition removeGeometry :: "Pathgrid \<Rightarrow> Pathgrid" where
  "removeGeometry s = s\<lparr>mRemoveGeometry := True\<rparr>"

definition createGeometry :: "collection \<Rightarrow> Pathgrid \<Rightarrow> Pathgrid" where
  "createGeometry c s =
     (case getPathgridSource c s of
        Some source \<Rightarrow>
          (let s1 = removePathgridGeometry s;
               s2 = s1\<lparr>mPathgridGeometry := Some (createPathgridGeometry source)\<rparr>
           in createSelectedGeometry_source source s2)
      | None \<Rightarrow> removeGeometry s)"

definition update :: "collection \<Rightarrow> Pathgrid \<Rightarrow> Pathgrid" where
  "update c s =
     (let s1 = (if mRemoveGeometry s then removeSelectedGeometry (removePathgridGeometry s)
                else if mChangeGeometry s then createGeometry c s
                else s)
      in s1\<lparr>mChangeGeometry := False, mRemoveGeometry := False\<rparr>)"

text \<open>
  The constructor. The interior flag is read from the cell record of the same id; the cell
  collection is outside the excerpt, so the flag found there is a parameter.
\<close>

definition Pathgrid_ctor :: "string \<Rightarrow> int \<times> int \<Rightarrow> bool \<Rightarrow> Pathgrid" where
  "Pathgrid_ctor pathgridId coordinates interior =
     (let s = \<lparr> mId = pathgridId, mCoords = coordinates, mInterior = False, mSelected = [],
                mConnectionIndicator = False, mConnectionNode = 0,
                mChangeGeometry = True, mRemoveGeometry = False,
                mPathgridGeometry = None, mSelectedGeometry = None,
                mSelectedNode_position = (0, 0, 0) \<rparr>;
          s = recreateGeometry s
      in s\<lparr>mInterior := interior\<rparr>)"

subsection \<open>Selection\<close>

text \<open>
  The counting loops of \<^verbatim>\<open>selectAll\<close> and \<^verbatim>\<open>invertSelected\<close>: the counter and the bound
  are both \<^verbatim>\<open>unsigned short\<close>.
\<close>

function selectAll_loop :: "node \<Rightarrow> node \<Rightarrow> node list \<Rightarrow> node list" where
  "selectAll_loop i n sel = (if i < n then selectAll_loop (i + 1) n (sel @ [i]) else sel)"
  by pat_completeness auto
termination
proof (relation "measure (\<lambda>(i, n, sel). unat n - unat i)")
  show "wf (measure (\<lambda>(i :: node, n :: node, sel :: node list). unat n - unat i))"
    by simp
next
  fix i n :: node and sel :: "node list"
  assume "i < n"
  then have "unat i < unat n" by (simp add: word_less_nat_alt)
  moreover have "unat (i + 1) = unat i + 1"
    using \<open>unat i < unat n\<close> unsigned_less [of n, where ?'a = nat] by (simp add: unat_word_ariths)
  ultimately show "((i + 1, n, sel @ [i]), (i, n, sel)) \<in> measure (\<lambda>(i, n, sel). unat n - unat i)"
    by simp
qed

function invert_loop :: "node \<Rightarrow> node \<Rightarrow> node list \<Rightarrow> node list \<Rightarrow> node list" where
  "invert_loop i n temp sel =
     (if i < n
      then invert_loop (i + 1) n temp (if i \<notin> set temp then sel @ [i] else sel)
      else sel)"
  by pat_completeness auto
termination
proof (relation "measure (\<lambda>(i, n, temp, sel). unat n - unat i)")
  show "wf (measure (\<lambda>(i :: node, n :: node, temp :: node list, sel :: node list). unat n - unat i))"
    by simp
next
  fix i n :: node and temp sel :: "node list"
  assume "i < n"
  then have "unat i < unat n" by (simp add: word_less_nat_alt)
  moreover have "unat (i + 1) = unat i + 1"
    using \<open>unat i < unat n\<close> unsigned_less [of n, where ?'a = nat] by (simp add: unat_word_ariths)
  ultimately show "((i + 1, n, temp, if i \<notin> set temp then sel @ [i] else sel), (i, n, temp, sel))
      \<in> measure (\<lambda>(i, n, temp, sel). unat n - unat i)"
    by simp
qed

definition selectAll :: "collection \<Rightarrow> Pathgrid \<Rightarrow> Pathgrid" where
  "selectAll c s0 =
     (let s = s0\<lparr>mSelected := []\<rparr>
      in case getPathgridSource c s of
           Some source \<Rightarrow>
             createSelectedGeometry_source source
               (s\<lparr>mSelected := selectAll_loop 0 (word_of_nat (length (mPoints source))) (mSelected s)\<rparr>)
         | None \<Rightarrow> removeSelectedGeometry s)"

definition toggleSelected :: "collection \<Rightarrow> Pathgrid \<Rightarrow> node \<Rightarrow> Pathgrid" where
  "toggleSelected c s node =
     createSelectedGeometry c
       (if node \<in> set (mSelected s)
        then s\<lparr>mSelected := remove1 node (mSelected s)\<rparr>
        else s\<lparr>mSelected := mSelected s @ [node]\<rparr>)"

definition invertSelected :: "collection \<Rightarrow> Pathgrid \<Rightarrow> Pathgrid" where
  "invertSelected c s0 =
     (let temp = mSelected s0;
          s = s0\<lparr>mSelected := []\<rparr>
      in case getPathgridSource c s of
           Some source \<Rightarrow>
             createSelectedGeometry_source source
               (s\<lparr>mSelected := invert_loop 0 (word_of_nat (length (mPoints source))) temp (mSelected s)\<rparr>)
         | None \<Rightarrow> removeSelectedGeometry s)"

definition clearSelected :: "Pathgrid \<Rightarrow> Pathgrid" where
  "clearSelected s = removeSelectedGeometry (s\<lparr>mSelected := []\<rparr>)"

definition moveSelected :: "Pathgrid \<Rightarrow> vec3 \<Rightarrow> Pathgrid" where
  "moveSelected s offset =
     (case (mSelectedNode_position s, offset) of
        ((x, y, z), (dx, dy, dz)) \<Rightarrow> s\<lparr>mSelectedNode_position := (x + dx, y + dy, z + dz)\<rparr>)"

definition setupConnectionIndicator :: "collection \<Rightarrow> Pathgrid \<Rightarrow> node \<Rightarrow> Pathgrid" where
  "setupConnectionIndicator c s node =
     createSelectedGeometry c (s\<lparr>mConnectionIndicator := True, mConnectionNode := node\<rparr>)"

definition resetMove :: "collection \<Rightarrow> Pathgrid \<Rightarrow> Pathgrid" where
  "resetMove c s0 =
     (let s = s0\<lparr>mSelectedNode_position := (0, 0, 0)\<rparr>
      in if mConnectionIndicator s
         then createSelectedGeometry c (s\<lparr>mConnectionIndicator := False\<rparr>)
         else s)"

subsection \<open>Commands\<close>

text \<open>
  The commands of \<^verbatim>\<open>CSMWorld\<close> that the object pushes, with the arguments it gives them.
  A column is named by its column id (the collection's lookup of the position of a column
  id is outside the excerpt). A model index is a row and a column under an optional parent.
\<close>

datatype column =
  ColumnId_PathgridPoints
| ColumnId_PathgridEdges
| ColumnId_PathgridEdge0
| ColumnId_PathgridEdge1

datatype QModelIndex =
  index_top int column
| index_nested int column QModelIndex

datatype command =
  AddNestedCommand string int column
| DeleteNestedCommand string int column
| ModifyCommand QModelIndex int

type_synonym CommandMacro = "command list"

fun edgeExists_from :: "Edge list \<Rightarrow> node \<Rightarrow> node \<Rightarrow> nat \<Rightarrow> int" where
  "edgeExists_from [] node1 node2 i = -1"
| "edgeExists_from (e # es) node1 node2 i =
     (if mV0 e = uint node1 \<and> mV1 e = uint node2 then int i
      else edgeExists_from es node1 node2 (Suc i))"

definition edgeExists :: "CSMWorld_Pathgrid \<Rightarrow> node \<Rightarrow> node \<Rightarrow> int" where
  "edgeExists source node1 node2 = edgeExists_from (mEdges source) node1 node2 0"

definition addEdge ::
  "collection \<Rightarrow> Pathgrid \<Rightarrow> CommandMacro \<Rightarrow> CSMWorld_Pathgrid \<Rightarrow> node \<Rightarrow> node \<Rightarrow> CommandMacro" where
  "addEdge c s commands source node1 node2 =
     (let recordIndex = getIndex c (mId s);
          parentColumn = ColumnId_PathgridEdges;
          edge0Column = ColumnId_PathgridEdge0;
          edge1Column = ColumnId_PathgridEdge1;
          parent = index_top recordIndex parentColumn;
          row = int (length (mEdges source));
          (commands, row) =
            (if edgeExists source node1 node2 = -1
             then (commands @
                     [AddNestedCommand (mId s) row parentColumn,
                      ModifyCommand (index_nested row edge0Column parent) (uint node1),
                      ModifyCommand (index_nested row edge1Column parent) (uint node2)],
                   row + 1)
             else (commands, row))
      in if edgeExists source node2 node1 = -1
         then commands @
                [AddNestedCommand (mId s) row parentColumn,
                 ModifyCommand (index_nested row edge0Column parent) (uint node2),
                 ModifyCommand (index_nested row edge1Column parent) (uint node1)]
         else commands)"

definition applyEdge :: "collection \<Rightarrow> Pathgrid \<Rightarrow> CommandMacro \<Rightarrow> node \<Rightarrow> node \<Rightarrow> CommandMacro" where
  "applyEdge c s commands node1 node2 =
     (case getPathgridSource c s of
        Some source \<Rightarrow> addEdge c s commands source node1 node2
      | None \<Rightarrow> commands)"

definition applyEdges :: "collection \<Rightarrow> Pathgrid \<Rightarrow> CommandMacro \<Rightarrow> node \<Rightarrow> CommandMacro" where
  "applyEdges c s commands node =
     (case getPathgridSource c s of
        Some source \<Rightarrow> foldl (\<lambda>commands n. addEdge c s commands source node n) commands (mSelected s)
      | None \<Rightarrow> commands)"

text \<open>
  \<^verbatim>\<open>std::sort\<close> with \<^verbatim>\<open>std::greater<int>\<close> compares the nodes as integers and leaves
  them in descending order.
\<close>

definition sort_greater :: "node list \<Rightarrow> node list" where
  "sort_greater xs = rev (sort_key uint xs)"

definition applyRemoveNodes :: "collection \<Rightarrow> Pathgrid \<Rightarrow> CommandMacro \<Rightarrow> CommandMacro \<times> Pathgrid" where
  "applyRemoveNodes c s commands =
     (case getPathgridSource c s of
        Some source \<Rightarrow>
          (let s1 = s\<lparr>mSelected := sort_greater (mSelected s)\<rparr>;
               parentColumn = ColumnId_PathgridPoints;
               commands1 = commands @
                 map (\<lambda>row. DeleteNestedCommand (mId s1) (uint row) parentColumn) (mSelected s1)
           in (commands1, clearSelected s1))
      | None \<Rightarrow> (commands, clearSelected s))"

text \<open>
  The pair scan of \<^verbatim>\<open>applyRemoveEdges\<close>. \<^verbatim>\<open>operator[]\<close> of a vector has no defined
  result outside the vector, so an element is read with \<open>vector_at\<close> and a read outside
  the selection makes the whole scan \<open>None\<close>. The outer loop keeps the inclusive bound of
  the source.
\<close>

definition vector_at :: "'a list \<Rightarrow> nat \<Rightarrow> 'a option" where
  "vector_at xs i = (if i < length xs then Some (xs ! i) else None)"

function removeEdges_inner ::
  "CSMWorld_Pathgrid \<Rightarrow> node list \<Rightarrow> nat \<Rightarrow> nat \<Rightarrow> int set \<Rightarrow> int set option" where
  "removeEdges_inner source sel i j rowsToRemove =
     (if j < length sel
      then (case (vector_at sel i, vector_at sel j) of
              (Some a, Some b) \<Rightarrow>
                (let row = edgeExists source a b;
                     rows1 = (if row \<noteq> -1 then insert row rowsToRemove else rowsToRemove);
                     row = edgeExists source b a;
                     rows2 = (if row \<noteq> -1 then insert row rows1 else rows1)
                 in removeEdges_inner source sel i (j + 1) rows2)
            | _ \<Rightarrow> None)
      else Some rowsToRemove)"
  by pat_completeness auto
termination
  by (relation "measure (\<lambda>(source, sel, i, j, rows). length sel - j)") auto

function removeEdges_outer ::
  "CSMWorld_Pathgrid \<Rightarrow> node list \<Rightarrow> nat \<Rightarrow> int set \<Rightarrow> int set option" where
  "removeEdges_outer source sel i rowsToRemove =
     (if i \<le> length sel
      then (case removeEdges_inner source sel i (i + 1) rowsToRemove of
              Some rows1 \<Rightarrow> removeEdges_outer source sel (i + 1) rows1
            | None \<Rightarrow> None)
      else Some rowsToRemove)"
  by pat_completeness auto
termination
  by (relation "measure (\<lambda>(source, sel, i, rows). Suc (length sel) - i)") auto

text \<open>
  \<^verbatim>\<open>std::set<int, std::greater<int> >\<close> is iterated from its greatest element down.
\<close>

definition applyRemoveEdges :: "collection \<Rightarrow> Pathgrid \<Rightarrow> CommandMacro \<Rightarrow> CommandMacro option" where
  "applyRemoveEdges c s commands =
     (case getPathgridSource c s of
        Some source \<Rightarrow>
          (case removeEdges_outer source (mSelected s) 0 {} of
             Some rowsToRemove \<Rightarrow>
               Some (commands @
                 map (\<lambda>row. DeleteNestedCommand (mId s) row ColumnId_PathgridEdges)
                   (rev (sorted_list_of_set rowsToRemove)))
           | None \<Rightarrow> None)
      | None \<Rightarrow> Some commands)"

text \<open>
  Modelled from the spec: \<^verbatim>\<open>ESM::Land::REAL_SIZE\<close>, the size of one exterior cell, is
  declared outside the excerpt; the spec gives the extent as 8192.
\<close>

definition REAL_SIZE :: int where
  "REAL_SIZE = 8192"

definition clampToCell :: "Pathgrid \<Rightarrow> int \<Rightarrow> int" where
  "clampToCell s v =
     (let CellExtent = REAL_SIZE
      in if mInterior s then v
         else if v > CellExtent then CellExtent
         else if v < 0 then 0
         else v)"

subsection \<open>The states an object can be in\<close>

text \<open>
  The fields are private: an object is in a state that the constructor and the public
  member functions lead to, whatever the document holds at each call. The command builders
  that leave the object as it is (\<^verbatim>\<open>applyEdge\<close>, \<^verbatim>\<open>applyEdges\<close>,
  \<^verbatim>\<open>applyRemoveEdges\<close>) need no rule.
\<close>

inductive reachable :: "Pathgrid \<Rightarrow> bool" where
  r_ctor: "reachable (Pathgrid_ctor pathgridId coordinates interior)"
| r_selectAll: "reachable s \<Longrightarrow> reachable (selectAll c s)"
| r_toggleSelected: "reachable s \<Longrightarrow> reachable (toggleSelected c s node)"
| r_invertSelected: "reachable s \<Longrightarrow> reachable (invertSelected c s)"
| r_clearSelected: "reachable s \<Longrightarrow> reachable (clearSelected s)"
| r_moveSelected: "reachable s \<Longrightarrow> reachable (moveSelected s offset)"
| r_setupConnectionIndicator: "reachable s \<Longrightarrow> reachable (setupConnectionIndicator c s node)"
| r_resetMove: "reachable s \<Longrightarrow> reachable (resetMove c s)"
| r_applyRemoveNodes: "reachable s \<Longrightarrow> reachable (snd (applyRemoveNodes c s commands))"
| r_recreateGeometry: "reachable s \<Longrightarrow> reachable (recreateGeometry s)"
| r_removeGeometry: "reachable s \<Longrightarrow> reachable (removeGeometry s)"
| r_update: "reachable s \<Longrightarrow> reachable (update c s)"

subsection \<open>Notions the statements below are written in\<close>

text \<open>
  The node list the highlight wireframe is built from: the selection, with the connection
  node moved to (or appended at) the end while a connection indicator is active.
\<close>

definition highlight_nodes :: "Pathgrid \<Rightarrow> node list" where
  "highlight_nodes s =
     (if mConnectionIndicator s
      then (if mConnectionNode s \<in> set (mSelected s)
            then remove1 (mConnectionNode s) (mSelected s) else mSelected s) @ [mConnectionNode s]
      else mSelected s)"

text \<open>The highlight drawable that belongs to a state: none while the graph does not resolve.\<close>

definition highlight_drawable :: "collection \<Rightarrow> Pathgrid \<Rightarrow> drawable option" where
  "highlight_drawable c s =
     map_option (\<lambda>source. createPathgridSelectedWireframe source (highlight_nodes s))
       (getPathgridSource c s)"

text \<open>
  The valid node indices of a graph in ascending order, as far as an \<^verbatim>\<open>unsigned short\<close>
  counts them.
\<close>

definition all_nodes :: "CSMWorld_Pathgrid \<Rightarrow> node list" where
  "all_nodes source = map word_of_nat [0 ..< unat (word_of_nat (length (mPoints source)) :: node)]"

text \<open>Toggling a node in a list: erase its first occurrence if there is one, append it otherwise.\<close>

definition toggle_list :: "node \<Rightarrow> node list \<Rightarrow> node list" where
  "toggle_list n xs = (if n \<in> set xs then remove1 n xs else xs @ [n])"

text \<open>A row with exactly this (from, to) pair is among the edges.\<close>

definition has_edge :: "CSMWorld_Pathgrid \<Rightarrow> node \<Rightarrow> node \<Rightarrow> bool" where
  "has_edge source a b = list_ex (\<lambda>e. mV0 e = uint a \<and> mV1 e = uint b) (mEdges source)"

text \<open>
  The three commands that create one directed edge: append a row, set its from-column, set
  its to-column.
\<close>

definition edge_commands :: "string \<Rightarrow> int \<Rightarrow> int \<Rightarrow> node \<Rightarrow> node \<Rightarrow> command list" where
  "edge_commands pathgridId recordIndex row a b =
     [AddNestedCommand pathgridId row ColumnId_PathgridEdges,
      ModifyCommand (index_nested row ColumnId_PathgridEdge0
                       (index_top recordIndex ColumnId_PathgridEdges)) (uint a),
      ModifyCommand (index_nested row ColumnId_PathgridEdge1
                       (index_top recordIndex ColumnId_PathgridEdges)) (uint b)]"

subsection \<open>Concrete inputs\<close>

text \<open>
  A graph of two points without edges, the collection that holds it under the id \<open>cell\<close>,
  and the same collection after the record has been deleted.
\<close>

definition pg_ex :: CSMWorld_Pathgrid where
  "pg_ex = \<lparr> mPoints = [\<lparr>mX = 0, mY = 0, mZ = 0\<rparr>, \<lparr>mX = 10, mY = 10, mZ = 10\<rparr>], mEdges = [] \<rparr>"

definition c_ex :: collection where
  "c_ex = [\<lparr>rec_id = ''cell'', isDeleted = False, rec_get = pg_ex\<rparr>]"

definition c_deleted :: collection where
  "c_deleted = [\<lparr>rec_id = ''cell'', isDeleted = True, rec_get = pg_ex\<rparr>]"

text \<open>
  An exterior object for that graph: as constructed, after its first tick, after a further
  rebuild request, and after nodes 0 and 1 have been toggled in either order.
\<close>

definition s_ex :: Pathgrid where
  "s_ex = Pathgrid_ctor ''cell'' (0, 0) False"

definition s_ticked :: Pathgrid where
  "s_ticked = update c_ex s_ex"

definition s_rebuild :: Pathgrid where
  "s_rebuild = recreateGeometry s_ticked"

definition s_sel01 :: Pathgrid where
  "s_sel01 = toggleSelected c_ex (toggleSelected c_ex s_ticked 0) 1"

definition s_sel10 :: Pathgrid where
  "s_sel10 = toggleSelected c_ex (toggleSelected c_ex s_ticked 1) 0"

section \<open>Properties\<close>

subsection \<open>The member functions as record updates\<close>

text \<open>The loop equations are applied by hand only.\<close>

declare selectAll_loop.simps [simp del] invert_loop.simps [simp del]
  removeEdges_inner.simps [simp del] removeEdges_outer.simps [simp del]

lemma removeSelectedGeometry_eq: "removeSelectedGeometry s = s\<lparr>mSelectedGeometry := None\<rparr>"
  by (simp add: removeSelectedGeometry_def)

lemma removePathgridGeometry_eq: "removePathgridGeometry s = s\<lparr>mPathgridGeometry := None\<rparr>"
  by (simp add: removePathgridGeometry_def)

lemma createSelectedGeometry_source_eq:
  "createSelectedGeometry_source source s =
     s\<lparr>mSelectedGeometry := Some (createPathgridSelectedWireframe source (highlight_nodes s))\<rparr>"
  by (simp add: createSelectedGeometry_source_def removeSelectedGeometry_eq highlight_nodes_def Let_def)

lemma createSelectedGeometry_eq:
  "createSelectedGeometry c s = s\<lparr>mSelectedGeometry := highlight_drawable c s\<rparr>"
  by (simp add: createSelectedGeometry_def createSelectedGeometry_source_eq
      removeSelectedGeometry_eq highlight_drawable_def split: option.splits)

lemma getPathgridSource_cong: "mId s' = mId s \<Longrightarrow> getPathgridSource c s' = getPathgridSource c s"
  by (simp add: getPathgridSource_def)

lemma highlight_drawable_upd:
  "highlight_drawable c (s\<lparr>mSelectedGeometry := g\<rparr>) = highlight_drawable c s"
  by (simp add: highlight_drawable_def highlight_nodes_def getPathgridSource_def)

text \<open>
  The counting loops run through the indices below the bound in ascending order; the counter
  cannot wrap because it stays below the bound.
\<close>

lemma unat_succ_node:
  fixes i n :: node
  assumes "i < n"
  shows "unat (i + 1) = Suc (unat i)"
proof -
  have "unat i < unat n" using assms by (simp add: word_less_nat_alt)
  then show ?thesis
    using unsigned_less [of n, where ?'a = nat] by (simp add: unat_word_ariths)
qed

lemma selectAll_loop_eq:
  "selectAll_loop i n sel = sel @ map word_of_nat [unat i ..< unat n]"
proof (induction i n sel rule: selectAll_loop.induct)
  case (1 i n sel)
  show ?case
  proof (cases "i < n")
    case True
    then have lt: "unat i < unat n" by (simp add: word_less_nat_alt)
    have "selectAll_loop i n sel = selectAll_loop (i + 1) n (sel @ [i])"
      using True by (subst selectAll_loop.simps) simp
    also have "\<dots> = (sel @ [i]) @ map word_of_nat [unat (i + 1) ..< unat n]"
      using "1.IH" True by simp
    also have "\<dots> = sel @ map word_of_nat [unat i ..< unat n]"
      using lt by (simp add: unat_succ_node [OF True] upt_conv_Cons)
    finally show ?thesis .
  next
    case False
    then have "unat n \<le> unat i" by (simp add: word_less_nat_alt)
    with False show ?thesis by (subst selectAll_loop.simps) simp
  qed
qed

lemma invert_loop_eq:
  "invert_loop i n temp sel = sel @ filter (\<lambda>x. x \<notin> set temp) (map word_of_nat [unat i ..< unat n])"
proof (induction i n temp sel rule: invert_loop.induct)
  case (1 i n temp sel)
  show ?case
  proof (cases "i < n")
    case True
    then have lt: "unat i < unat n" by (simp add: word_less_nat_alt)
    have "invert_loop i n temp sel = invert_loop (i + 1) n temp (if i \<notin> set temp then sel @ [i] else sel)"
      using True by (subst invert_loop.simps) simp
    also have "\<dots> = (if i \<notin> set temp then sel @ [i] else sel)
         @ filter (\<lambda>x. x \<notin> set temp) (map word_of_nat [unat (i + 1) ..< unat n])"
      using "1.IH" True by simp
    also have "\<dots> = sel @ filter (\<lambda>x. x \<notin> set temp) (map word_of_nat [unat i ..< unat n])"
      using lt by (simp add: unat_succ_node [OF True] upt_conv_Cons)
    finally show ?thesis .
  next
    case False
    then have "unat n \<le> unat i" by (simp add: word_less_nat_alt)
    with False show ?thesis by (subst invert_loop.simps) simp
  qed
qed

lemma selectAll_eq:
  "selectAll c s =
     (case getPathgridSource c s of
        Some source \<Rightarrow> s\<lparr>mSelected := all_nodes source,
                          mSelectedGeometry := Some (createPathgridSelectedWireframe source
                             (highlight_nodes (s\<lparr>mSelected := all_nodes source\<rparr>)))\<rparr>
      | None \<Rightarrow> s\<lparr>mSelected := [], mSelectedGeometry := None\<rparr>)"
  by (simp add: selectAll_def Let_def getPathgridSource_cong [of "s\<lparr>mSelected := []\<rparr>" s]
      createSelectedGeometry_source_eq removeSelectedGeometry_eq selectAll_loop_eq all_nodes_def
      highlight_nodes_def split: option.splits)

lemma invertSelected_eq:
  "invertSelected c s =
     (case getPathgridSource c s of
        Some source \<Rightarrow>
          s\<lparr>mSelected := filter (\<lambda>x. x \<notin> set (mSelected s)) (all_nodes source),
            mSelectedGeometry := Some (createPathgridSelectedWireframe source
               (highlight_nodes (s\<lparr>mSelected := filter (\<lambda>x. x \<notin> set (mSelected s)) (all_nodes source)\<rparr>)))\<rparr>
      | None \<Rightarrow> s\<lparr>mSelected := [], mSelectedGeometry := None\<rparr>)"
  by (simp add: invertSelected_def Let_def getPathgridSource_cong [of "s\<lparr>mSelected := []\<rparr>" s]
      createSelectedGeometry_source_eq removeSelectedGeometry_eq invert_loop_eq all_nodes_def
      highlight_nodes_def split: option.splits)

lemma toggleSelected_eq:
  "toggleSelected c s n =
     s\<lparr>mSelected := toggle_list n (mSelected s),
       mSelectedGeometry := highlight_drawable c (s\<lparr>mSelected := toggle_list n (mSelected s)\<rparr>)\<rparr>"
  by (simp add: toggleSelected_def createSelectedGeometry_eq toggle_list_def)

lemma clearSelected_eq: "clearSelected s = s\<lparr>mSelected := [], mSelectedGeometry := None\<rparr>"
  by (simp add: clearSelected_def removeSelectedGeometry_eq)

lemma setupConnectionIndicator_eq:
  "setupConnectionIndicator c s n =
     s\<lparr>mConnectionIndicator := True, mConnectionNode := n,
       mSelectedGeometry :=
         highlight_drawable c (s\<lparr>mConnectionIndicator := True, mConnectionNode := n\<rparr>)\<rparr>"
  by (simp add: setupConnectionIndicator_def createSelectedGeometry_eq)

lemma resetMove_eq:
  "resetMove c s =
     (if mConnectionIndicator s
      then s\<lparr>mSelectedNode_position := (0, 0, 0), mConnectionIndicator := False,
             mSelectedGeometry :=
               highlight_drawable c (s\<lparr>mSelectedNode_position := (0, 0, 0), mConnectionIndicator := False\<rparr>)\<rparr>
      else s\<lparr>mSelectedNode_position := (0, 0, 0)\<rparr>)"
  by (simp add: resetMove_def createSelectedGeometry_eq Let_def)

lemma applyRemoveNodes_eq:
  "applyRemoveNodes c s commands =
     (case getPathgridSource c s of
        Some source \<Rightarrow>
          commands @ map (\<lambda>row. DeleteNestedCommand (mId s) row ColumnId_PathgridPoints)
                        (map uint (sort_greater (mSelected s)))
      | None \<Rightarrow> commands,
      s\<lparr>mSelected := [], mSelectedGeometry := None\<rparr>)"
  by (simp add: applyRemoveNodes_def clearSelected_eq Let_def comp_def split: option.splits)

lemma update_mSelected: "mSelected (update c s) = mSelected s"
  by (simp add: update_def createGeometry_def removeGeometry_def removePathgridGeometry_eq
      removeSelectedGeometry_eq createSelectedGeometry_source_eq split: option.splits)

lemma update_absent:
  assumes "mChangeGeometry s" "\<not> mRemoveGeometry s" "getPathgridSource c s = None"
  shows "update c s = s\<lparr>mChangeGeometry := False\<rparr>"
  using assms by (simp add: update_def createGeometry_def removeGeometry_def)

lemma update_noop:
  assumes "\<not> mChangeGeometry s" "\<not> mRemoveGeometry s"
  shows "update c s = s"
  using assms by (simp add: update_def)

subsection \<open>The valid indices\<close>

lemma all_nodes_sorted: "sorted_wrt (<) (all_nodes source)"
proof -
  define k where "k = unat (word_of_nat (length (mPoints source)) :: node)"
  have k: "k < 2 ^ 16"
    unfolding k_def using unsigned_less [of "word_of_nat (length (mPoints source)) :: node", where ?'a = nat]
    by simp
  have "sorted_wrt (\<lambda>x y. (word_of_nat x :: node) < word_of_nat y) [0 ..< k]"
  proof (rule sorted_wrt_mono_rel [OF _ sorted_wrt_upt])
    fix x y :: nat
    assume "x \<in> set [0 ..< k]" "y \<in> set [0 ..< k]" "x < y"
    then have "x < 2 ^ 16" "y < 2 ^ 16" using k by auto
    then show "(word_of_nat x :: node) < word_of_nat y"
      using \<open>x < y\<close> by (simp add: word_of_nat_less_iff take_bit_nat_eq_self)
  qed
  then show ?thesis
    by (simp add: all_nodes_def sorted_wrt_map k_def)
qed

lemma distinct_all_nodes: "distinct (all_nodes source)"
  using all_nodes_sorted [of source] by (simp add: strict_sorted_iff)

lemma set_all_nodes:
  "set (all_nodes source) = {x. x < word_of_nat (length (mPoints source))}"
proof (intro set_eqI iffI)
  fix x :: node
  define n :: node where "n = word_of_nat (length (mPoints source))"
  {
    assume "x \<in> set (all_nodes source)"
    then obtain k where k: "k < unat n" "x = word_of_nat k"
      by (auto simp: all_nodes_def n_def)
    have "unat n < 2 ^ 16"
      using unsigned_less [of n, where ?'a = nat] by simp
    with k have "unat x = k"
      by (simp add: unat_of_nat)
    with k show "x \<in> {x. x < word_of_nat (length (mPoints source))}"
      by (simp add: word_less_nat_alt n_def)
  }
  {
    assume "x \<in> {x. x < word_of_nat (length (mPoints source))}"
    then have "unat x < unat n" by (simp add: word_less_nat_alt n_def)
    then have "(word_of_nat (unat x) :: node) \<in> word_of_nat ` {0 ..< unat n}"
      by (intro imageI) simp
    then show "x \<in> set (all_nodes source)"
      by (simp add: all_nodes_def n_def)
  }
qed

subsection \<open>The concrete inputs evaluated\<close>

lemma s_ex_eq:
  "s_ex = \<lparr> mId = ''cell'', mCoords = (0, 0), mInterior = False, mSelected = [],
            mConnectionIndicator = False, mConnectionNode = 0,
            mChangeGeometry = True, mRemoveGeometry = False,
            mPathgridGeometry = None, mSelectedGeometry = None,
            mSelectedNode_position = (0, 0, 0) \<rparr>"
  by (simp add: s_ex_def Pathgrid_ctor_def recreateGeometry_def)

lemma getPathgridSource_c_ex: "mId s = ''cell'' \<Longrightarrow> getPathgridSource c_ex s = Some pg_ex"
  by (simp add: getPathgridSource_def searchId_def getRecord_def c_ex_def)

lemma getPathgridSource_c_deleted: "mId s = ''cell'' \<Longrightarrow> getPathgridSource c_deleted s = None"
  by (simp add: getPathgridSource_def searchId_def getRecord_def c_deleted_def)

lemma highlight_drawable_c_ex:
  "mId s = ''cell'' \<Longrightarrow>
   highlight_drawable c_ex s = Some (createPathgridSelectedWireframe pg_ex (highlight_nodes s))"
  by (simp add: highlight_drawable_def getPathgridSource_c_ex)

lemma s_ticked_eq:
  "s_ticked = \<lparr> mId = ''cell'', mCoords = (0, 0), mInterior = False, mSelected = [],
            mConnectionIndicator = False, mConnectionNode = 0,
            mChangeGeometry = False, mRemoveGeometry = False,
            mPathgridGeometry = Some (createPathgridGeometry pg_ex),
            mSelectedGeometry = Some (createPathgridSelectedWireframe pg_ex []),
            mSelectedNode_position = (0, 0, 0) \<rparr>"
  by (simp add: s_ticked_def s_ex_eq update_def createGeometry_def getPathgridSource_c_ex
      removePathgridGeometry_eq createSelectedGeometry_source_eq highlight_nodes_def)

lemma s_sel01_eq:
  "s_sel01 = s_ticked\<lparr>mSelected := [0, 1],
                       mSelectedGeometry := Some (createPathgridSelectedWireframe pg_ex [0, 1])\<rparr>"
  by (simp add: s_sel01_def s_ticked_eq toggleSelected_eq toggle_list_def highlight_drawable_c_ex
      highlight_nodes_def)

lemma s_sel10_eq:
  "s_sel10 = s_ticked\<lparr>mSelected := [1, 0],
                       mSelectedGeometry := Some (createPathgridSelectedWireframe pg_ex [1, 0])\<rparr>"
  by (simp add: s_sel10_def s_ticked_eq toggleSelected_eq toggle_list_def highlight_drawable_c_ex
      highlight_nodes_def)

lemma all_nodes_pg_ex: "all_nodes pg_ex = [0, 1]"
  by (simp add: all_nodes_def pg_ex_def upt_conv_Cons)

lemma reachable_s_sel10: "reachable s_sel10"
  unfolding s_sel10_def s_ticked_def s_ex_def by (intro reachable.intros)

subsection \<open>The selection of a reachable object has no duplicates\<close>

lemma distinct_toggle_list: "distinct xs \<Longrightarrow> distinct (toggle_list n xs)"
  by (simp add: toggle_list_def)

lemma reachable_distinct: "reachable s \<Longrightarrow> distinct (mSelected s)"
proof (induction rule: reachable.induct)
  case (r_ctor pathgridId coordinates interior)
  show ?case by (simp add: Pathgrid_ctor_def recreateGeometry_def)
next
  case (r_selectAll s c)
  show ?case by (simp add: selectAll_eq distinct_all_nodes split: option.splits)
next
  case (r_toggleSelected s c node)
  then show ?case by (simp add: toggleSelected_eq distinct_toggle_list)
next
  case (r_invertSelected s c)
  show ?case by (simp add: invertSelected_eq distinct_all_nodes split: option.splits)
next
  case (r_clearSelected s)
  show ?case by (simp add: clearSelected_eq)
next
  case (r_moveSelected s offset)
  then show ?case by (simp add: moveSelected_def split: prod.splits)
next
  case (r_setupConnectionIndicator s c node)
  then show ?case by (simp add: setupConnectionIndicator_eq)
next
  case (r_resetMove s c)
  then show ?case by (simp add: resetMove_eq)
next
  case (r_applyRemoveNodes s c commands)
  show ?case by (simp add: applyRemoveNodes_def clearSelected_eq Let_def split: option.splits)
next
  case (r_recreateGeometry s)
  then show ?case by (simp add: recreateGeometry_def)
next
  case (r_removeGeometry s)
  then show ?case by (simp add: removeGeometry_def)
next
  case (r_update s c)
  then show ?case by (simp add: update_mSelected)
qed

subsection \<open>C1: a rebuild request that finds no graph\<close>

text \<open>
  C1 reads: when a rebuild has been requested, no teardown has been requested and the graph
  does not resolve at the tick, then after the tick both drawables are gone or a teardown
  is still pending. The source does not get there: \<^verbatim>\<open>createGeometry\<close> answers the missing graph with
  \<^verbatim>\<open>removeGeometry()\<close>, which only sets \<^verbatim>\<open>mRemoveGeometry\<close>, and \<^verbatim>\<open>update\<close> clears
  that flag two statements later. For the object that has drawn the two-point graph and is
  asked to rebuild after the record was deleted, the tick leaves both drawables attached
  and no teardown pending, and a further tick changes nothing.
\<close>

theorem update_absent_graph_drops_teardown:
  "mChangeGeometry s_rebuild \<and> \<not> mRemoveGeometry s_rebuild
   \<and> getPathgridSource c_deleted s_rebuild = None
   \<and> mPathgridGeometry (update c_deleted s_rebuild) = Some (createPathgridGeometry pg_ex)
   \<and> mSelectedGeometry (update c_deleted s_rebuild) = Some (createPathgridSelectedWireframe pg_ex [])
   \<and> \<not> mRemoveGeometry (update c_deleted s_rebuild)
   \<and> update c_deleted (update c_deleted s_rebuild) = update c_deleted s_rebuild"
proof -
  have s: "mChangeGeometry s_rebuild" "\<not> mRemoveGeometry s_rebuild" "mId s_rebuild = ''cell''"
    by (simp_all add: s_rebuild_def recreateGeometry_def s_ticked_eq)
  have u: "update c_deleted s_rebuild = s_ticked"
    using update_absent [OF s(1) s(2) getPathgridSource_c_deleted [OF s(3)]]
    by (simp add: s_rebuild_def recreateGeometry_def s_ticked_eq)
  have "update c_deleted s_ticked = s_ticked"
    by (rule update_noop) (simp_all add: s_ticked_eq)
  then show ?thesis
    using s getPathgridSource_c_deleted [OF s(3)] by (simp add: u) (simp add: s_ticked_eq)
qed

subsection \<open>C2: selection operations and the highlight drawable\<close>

lemma selectAll_highlight:
  "mSelectedGeometry (selectAll c s) = highlight_drawable c (selectAll c s)
   \<and> mChangeGeometry (selectAll c s) = mChangeGeometry s
   \<and> mRemoveGeometry (selectAll c s) = mRemoveGeometry s"
proof (cases "getPathgridSource c s")
  case None
  then have "getPathgridSource c (s\<lparr>mSelected := [], mSelectedGeometry := None\<rparr>) = None"
    by (simp add: getPathgridSource_def)
  with None show ?thesis
    by (simp add: selectAll_eq highlight_drawable_def)
next
  case (Some source)
  then have "getPathgridSource c (selectAll c s) = Some source"
    by (simp add: selectAll_eq getPathgridSource_def)
  with Some show ?thesis
    by (simp add: selectAll_eq highlight_drawable_def highlight_nodes_def)
qed

lemma invertSelected_highlight:
  "mSelectedGeometry (invertSelected c s) = highlight_drawable c (invertSelected c s)
   \<and> mChangeGeometry (invertSelected c s) = mChangeGeometry s
   \<and> mRemoveGeometry (invertSelected c s) = mRemoveGeometry s"
proof (cases "getPathgridSource c s")
  case None
  then have "getPathgridSource c (s\<lparr>mSelected := [], mSelectedGeometry := None\<rparr>) = None"
    by (simp add: getPathgridSource_def)
  with None show ?thesis
    by (simp add: invertSelected_eq highlight_drawable_def)
next
  case (Some source)
  then have "getPathgridSource c (invertSelected c s) = Some source"
    by (simp add: invertSelected_eq getPathgridSource_def)
  with Some show ?thesis
    by (simp add: invertSelected_eq highlight_drawable_def highlight_nodes_def)
qed

lemma toggleSelected_highlight:
  "mSelectedGeometry (toggleSelected c s n) = highlight_drawable c (toggleSelected c s n)
   \<and> mChangeGeometry (toggleSelected c s n) = mChangeGeometry s
   \<and> mRemoveGeometry (toggleSelected c s n) = mRemoveGeometry s"
  by (simp add: toggleSelected_eq highlight_drawable_upd)

lemma setupConnectionIndicator_highlight:
  "mSelectedGeometry (setupConnectionIndicator c s n) = highlight_drawable c (setupConnectionIndicator c s n)
   \<and> mChangeGeometry (setupConnectionIndicator c s n) = mChangeGeometry s
   \<and> mRemoveGeometry (setupConnectionIndicator c s n) = mRemoveGeometry s"
  by (simp add: setupConnectionIndicator_eq highlight_drawable_upd)

lemma resetMove_highlight:
  "mSelectedGeometry (resetMove c s) =
     (if mConnectionIndicator s then highlight_drawable c (resetMove c s) else mSelectedGeometry s)
   \<and> mChangeGeometry (resetMove c s) = mChangeGeometry s
   \<and> mRemoveGeometry (resetMove c s) = mRemoveGeometry s"
  by (simp add: resetMove_eq highlight_drawable_upd)

text \<open>
  C2, as the source has it: no selection operation touches either dirty flag. \<^verbatim>\<open>selectAll\<close>,
  \<^verbatim>\<open>toggleSelected\<close>, \<^verbatim>\<open>invertSelected\<close> and \<^verbatim>\<open>setupConnectionIndicator\<close> replace the
  highlight drawable inside the operation by the one that belongs to the new state (none
  when the graph is absent), \<^verbatim>\<open>clearSelected\<close> removes it, and \<^verbatim>\<open>resetMove\<close> rebuilds it
  only when a connection indicator was set. A tick that finds both flags clear changes
  nothing.
\<close>

theorem selection_ops_rebuild_highlight_themselves:
  "(mSelectedGeometry (selectAll c s) = highlight_drawable c (selectAll c s)
      \<and> mChangeGeometry (selectAll c s) = mChangeGeometry s
      \<and> mRemoveGeometry (selectAll c s) = mRemoveGeometry s)
   \<and> (mSelectedGeometry (toggleSelected c s n) = highlight_drawable c (toggleSelected c s n)
      \<and> mChangeGeometry (toggleSelected c s n) = mChangeGeometry s
      \<and> mRemoveGeometry (toggleSelected c s n) = mRemoveGeometry s)
   \<and> (mSelectedGeometry (invertSelected c s) = highlight_drawable c (invertSelected c s)
      \<and> mChangeGeometry (invertSelected c s) = mChangeGeometry s
      \<and> mRemoveGeometry (invertSelected c s) = mRemoveGeometry s)
   \<and> (mSelectedGeometry (clearSelected s) = None
      \<and> mChangeGeometry (clearSelected s) = mChangeGeometry s
      \<and> mRemoveGeometry (clearSelected s) = mRemoveGeometry s)
   \<and> (mSelectedGeometry (setupConnectionIndicator c s n)
        = highlight_drawable c (setupConnectionIndicator c s n)
      \<and> mChangeGeometry (setupConnectionIndicator c s n) = mChangeGeometry s
      \<and> mRemoveGeometry (setupConnectionIndicator c s n) = mRemoveGeometry s)
   \<and> (mSelectedGeometry (resetMove c s) =
        (if mConnectionIndicator s then highlight_drawable c (resetMove c s) else mSelectedGeometry s)
      \<and> mChangeGeometry (resetMove c s) = mChangeGeometry s
      \<and> mRemoveGeometry (resetMove c s) = mRemoveGeometry s)
   \<and> (\<not> mChangeGeometry s \<and> \<not> mRemoveGeometry s \<longrightarrow> update c s = s)"
proof -
  have "mSelectedGeometry (clearSelected s) = None
      \<and> mChangeGeometry (clearSelected s) = mChangeGeometry s
      \<and> mRemoveGeometry (clearSelected s) = mRemoveGeometry s"
    by (simp add: clearSelected_eq)
  moreover have "\<not> mChangeGeometry s \<and> \<not> mRemoveGeometry s \<longrightarrow> update c s = s"
    by (simp add: update_noop)
  ultimately show ?thesis
    using selectAll_highlight [of c s] toggleSelected_highlight [of c s n]
      invertSelected_highlight [of c s] setupConnectionIndicator_highlight [of c s n]
      resetMove_highlight [of c s]
    by blast
qed

text \<open>
  C2, an instance: after the first tick both flags are clear, a tick changes nothing, and
  toggling node 0 has already put the wireframe of \<open>[0]\<close> in place.
\<close>

theorem selection_ops_rebuild_highlight_themselves_witness:
  "\<not> mChangeGeometry s_ticked \<and> \<not> mRemoveGeometry s_ticked
   \<and> update c_ex s_ticked = s_ticked
   \<and> mSelectedGeometry (toggleSelected c_ex s_ticked 0) = Some (createPathgridSelectedWireframe pg_ex [0])
   \<and> \<not> mChangeGeometry (toggleSelected c_ex s_ticked 0)"
proof -
  have "mId (toggleSelected c_ex s_ticked 0) = ''cell''"
    and "highlight_nodes (toggleSelected c_ex s_ticked 0) = [0]"
    by (simp_all add: toggleSelected_eq toggle_list_def s_ticked_eq highlight_nodes_def)
  then have "highlight_drawable c_ex (toggleSelected c_ex s_ticked 0)
      = Some (createPathgridSelectedWireframe pg_ex [0])"
    by (simp add: highlight_drawable_c_ex)
  moreover have "\<not> mChangeGeometry s_ticked \<and> \<not> mRemoveGeometry s_ticked"
    by (simp add: s_ticked_eq)
  ultimately show ?thesis
    using selection_ops_rebuild_highlight_themselves [of c_ex s_ticked 0] by simp
qed

text \<open>
  C2 as it was stated fails: toggling node 0 and then node 1 between two ticks replaces the
  highlight drawable twice, at once, and never sets the rebuild flag.
\<close>

theorem toggle_rebuilds_highlight_in_place:
  "\<not> mChangeGeometry s_ticked \<and> \<not> mRemoveGeometry s_ticked
   \<and> mSelectedGeometry s_ticked = Some (createPathgridSelectedWireframe pg_ex [])
   \<and> mSelectedGeometry (toggleSelected c_ex s_ticked 0) = Some (createPathgridSelectedWireframe pg_ex [0])
   \<and> \<not> mChangeGeometry (toggleSelected c_ex s_ticked 0)
   \<and> mSelectedGeometry (toggleSelected c_ex (toggleSelected c_ex s_ticked 0) 1)
       = Some (createPathgridSelectedWireframe pg_ex [0, 1])
   \<and> \<not> mChangeGeometry (toggleSelected c_ex (toggleSelected c_ex s_ticked 0) 1)"
  by (simp add: s_ticked_eq toggleSelected_eq toggle_list_def highlight_drawable_c_ex highlight_nodes_def)

subsection \<open>C3: toggling a node twice\<close>

lemma toggle_list_twice_absent: "n \<notin> set xs \<Longrightarrow> toggle_list n (toggle_list n xs) = xs"
  by (simp add: toggle_list_def remove1_append)

lemma toggle_list_twice_present:
  assumes "n \<in> set xs"
  shows "toggle_list n (toggle_list n xs) = xs \<longleftrightarrow> last xs = n \<and> n \<notin> set (butlast xs)"
proof (cases xs rule: rev_cases)
  case Nil
  with assms show ?thesis by simp
next
  case (snoc ys y)
  show ?thesis
  proof (cases "n \<in> set ys")
    case True
    have "0 < length ys"
      using True by (cases ys) simp_all
    then have len: "Suc (length (remove1 n ys)) = length ys"
      using True by (simp add: length_remove1)
    have r: "toggle_list n xs = remove1 n ys @ [y]"
      using True by (simp add: snoc toggle_list_def remove1_append)
    have "toggle_list n (toggle_list n xs) \<noteq> xs"
    proof (cases "n \<in> set (remove1 n ys @ [y])")
      case True
      have "toggle_list n (toggle_list n xs) = toggle_list n (remove1 n ys @ [y])"
        by (simp only: r)
      also have "\<dots> = remove1 n (remove1 n ys @ [y])"
        using True by (simp only: toggle_list_def if_True)
      finally have "length (toggle_list n (toggle_list n xs)) = length (remove1 n ys @ [y]) - 1"
        using True by (simp only: length_remove1 if_True)
      also have "\<dots> = length ys - 1"
        using len by simp
      finally show ?thesis by (auto simp: snoc)
    next
      case False
      have "toggle_list n (toggle_list n xs) = toggle_list n (remove1 n ys @ [y])"
        by (simp only: r)
      also have "\<dots> = (remove1 n ys @ [y]) @ [n]"
        using False by (simp only: toggle_list_def if_False)
      finally have "toggle_list n (toggle_list n xs) = (remove1 n ys @ [y]) @ [n]" .
      moreover have "y \<noteq> n" using False by auto
      ultimately show ?thesis by (auto simp: snoc)
    qed
    with True show ?thesis by (simp add: snoc)
  next
    case False
    with assms have "y = n" by (simp add: snoc)
    with False show ?thesis by (simp add: snoc toggle_list_def remove1_append)
  qed
qed

lemma toggle_list_twice_distinct:
  "n \<in> set xs \<Longrightarrow> distinct xs \<Longrightarrow> toggle_list n (toggle_list n xs) = remove1 n xs @ [n]"
  by (simp add: toggle_list_def)

text \<open>
  C3, as the source has it: toggling a node twice gives back the selection exactly when the
  node was not selected, or was the last element and occurs nowhere else. A node selected
  elsewhere in a selection without duplicates ends up last: the contents are as before, the
  order is not.
\<close>

theorem toggle_twice_selection:
  "(mSelected (toggleSelected c2 (toggleSelected c1 s n) n) = mSelected s \<longleftrightarrow>
      n \<notin> set (mSelected s) \<or>
      (mSelected s \<noteq> [] \<and> last (mSelected s) = n \<and> n \<notin> set (butlast (mSelected s))))
   \<and> (n \<in> set (mSelected s) \<and> distinct (mSelected s) \<longrightarrow>
        mSelected (toggleSelected c2 (toggleSelected c1 s n) n) = remove1 n (mSelected s) @ [n])"
proof -
  have t: "mSelected (toggleSelected c2 (toggleSelected c1 s n) n) = toggle_list n (toggle_list n (mSelected s))"
    by (simp add: toggleSelected_eq)
  show ?thesis
    using toggle_list_twice_absent [of n "mSelected s"] toggle_list_twice_present [of n "mSelected s"]
      toggle_list_twice_distinct [of n "mSelected s"]
    unfolding t by (cases "n \<in> set (mSelected s)") auto
qed

text \<open>
  C3, instances: node 0 toggled twice on the empty selection, node 1 toggled twice on
  \<open>[0, 1]\<close> where it is last, and node 0 toggled twice on \<open>[0, 1]\<close>.
\<close>

theorem toggle_twice_selection_witness:
  "(0 :: node) \<notin> set (mSelected s_ticked)
   \<and> mSelected (toggleSelected c_ex (toggleSelected c_ex s_ticked 0) 0) = mSelected s_ticked
   \<and> (1 :: node) \<in> set (mSelected s_sel01) \<and> last (mSelected s_sel01) = 1
   \<and> mSelected (toggleSelected c_ex (toggleSelected c_ex s_sel01 1) 1) = mSelected s_sel01
   \<and> (0 :: node) \<in> set (mSelected s_sel01) \<and> distinct (mSelected s_sel01)
   \<and> mSelected (toggleSelected c_ex (toggleSelected c_ex s_sel01 0) 0) = [1, 0]"
  using toggle_twice_selection [of c_ex c_ex s_ticked 0] toggle_twice_selection [of c_ex c_ex s_sel01 1]
    toggle_twice_selection [of c_ex c_ex s_sel01 0]
  by (simp add: s_sel01_eq s_ticked_eq)

text \<open>C3 as it was stated fails: toggling node 0 twice turns the selection \<open>[0, 1]\<close> into \<open>[1, 0]\<close>.\<close>

theorem toggle_twice_reorders:
  "mSelected s_sel01 = [0, 1]
   \<and> mSelected (toggleSelected c_ex (toggleSelected c_ex s_sel01 0) 0) = [1, 0]
   \<and> mSelected (toggleSelected c_ex (toggleSelected c_ex s_sel01 0) 0) \<noteq> mSelected s_sel01"
  by (simp add: s_sel01_eq toggleSelected_eq toggle_list_def)

subsection \<open>C4: operations that find no graph\<close>

text \<open>
  C4, as the source has it: while the graph is absent, \<^verbatim>\<open>selectAll\<close>, \<^verbatim>\<open>invertSelected\<close>,
  \<^verbatim>\<open>clearSelected\<close> and \<^verbatim>\<open>applyRemoveNodes\<close> leave the selection empty and the highlight
  drawable removed. \<^verbatim>\<open>toggleSelected\<close> still appends or erases the node,
  \<^verbatim>\<open>setupConnectionIndicator\<close> and \<^verbatim>\<open>resetMove\<close> keep the selection as it is; these only
  remove the highlight drawable (\<^verbatim>\<open>resetMove\<close> only when an indicator was set). The edge
  builders and \<^verbatim>\<open>applyRemoveEdges\<close> push nothing. Nothing else in the object changes: the
  persisted-graph drawable stays and no teardown is requested.
\<close>

theorem absent_graph_selection_ops:
  assumes "getPathgridSource c s = None"
  shows "selectAll c s = s\<lparr>mSelected := [], mSelectedGeometry := None\<rparr>
       \<and> invertSelected c s = s\<lparr>mSelected := [], mSelectedGeometry := None\<rparr>
       \<and> clearSelected s = s\<lparr>mSelected := [], mSelectedGeometry := None\<rparr>
       \<and> applyRemoveNodes c s commands = (commands, s\<lparr>mSelected := [], mSelectedGeometry := None\<rparr>)
       \<and> toggleSelected c s n =
           s\<lparr>mSelected := (if n \<in> set (mSelected s) then remove1 n (mSelected s) else mSelected s @ [n]),
             mSelectedGeometry := None\<rparr>
       \<and> setupConnectionIndicator c s n =
           s\<lparr>mConnectionIndicator := True, mConnectionNode := n, mSelectedGeometry := None\<rparr>
       \<and> resetMove c s =
           (if mConnectionIndicator s
            then s\<lparr>mSelectedNode_position := (0, 0, 0), mConnectionIndicator := False,
                   mSelectedGeometry := None\<rparr>
            else s\<lparr>mSelectedNode_position := (0, 0, 0)\<rparr>)
       \<and> applyEdge c s commands n n' = commands
       \<and> applyEdges c s commands n = commands
       \<and> applyRemoveEdges c s commands = Some commands"
proof -
  have h: "highlight_drawable c s' = None" if "mId s' = mId s" for s'
    using assms getPathgridSource_cong [OF that, of c] by (simp add: highlight_drawable_def)
  have "selectAll c s = s\<lparr>mSelected := [], mSelectedGeometry := None\<rparr>"
    using assms by (simp add: selectAll_eq)
  moreover have "invertSelected c s = s\<lparr>mSelected := [], mSelectedGeometry := None\<rparr>"
    using assms by (simp add: invertSelected_eq)
  moreover have "applyRemoveNodes c s commands = (commands, s\<lparr>mSelected := [], mSelectedGeometry := None\<rparr>)"
    using assms by (simp add: applyRemoveNodes_def clearSelected_eq)
  moreover have "toggleSelected c s n =
           s\<lparr>mSelected := (if n \<in> set (mSelected s) then remove1 n (mSelected s) else mSelected s @ [n]),
             mSelectedGeometry := None\<rparr>"
    by (simp add: toggleSelected_eq h toggle_list_def)
  moreover have "setupConnectionIndicator c s n =
           s\<lparr>mConnectionIndicator := True, mConnectionNode := n, mSelectedGeometry := None\<rparr>"
    by (simp add: setupConnectionIndicator_eq h)
  moreover have "resetMove c s =
           (if mConnectionIndicator s
            then s\<lparr>mSelectedNode_position := (0, 0, 0), mConnectionIndicator := False,
                   mSelectedGeometry := None\<rparr>
            else s\<lparr>mSelectedNode_position := (0, 0, 0)\<rparr>)"
    by (simp add: resetMove_eq h)
  moreover have "applyEdge c s commands n n' = commands"
    and "applyEdges c s commands n = commands"
    and "applyRemoveEdges c s commands = Some commands"
    using assms by (simp_all add: applyEdge_def applyEdges_def applyRemoveEdges_def)
  ultimately show ?thesis
    by (simp add: clearSelected_eq)
qed

text \<open>
  C4, an instance: the object with selection \<open>[0, 1]\<close> after the record has been deleted.
\<close>

theorem absent_graph_selection_ops_witness:
  "getPathgridSource c_deleted s_sel01 = None
   \<and> mSelected (selectAll c_deleted s_sel01) = []
   \<and> mSelected (toggleSelected c_deleted s_sel01 0) = [1]
   \<and> mSelectedGeometry (toggleSelected c_deleted s_sel01 0) = None
   \<and> mPathgridGeometry (toggleSelected c_deleted s_sel01 0) = Some (createPathgridGeometry pg_ex)"
proof -
  have g: "getPathgridSource c_deleted s_sel01 = None"
    by (rule getPathgridSource_c_deleted) (simp add: s_sel01_eq s_ticked_eq)
  show ?thesis
    using absent_graph_selection_ops [OF g, of "[]" 0 0]
    by (simp add: g) (simp add: s_sel01_eq s_ticked_eq)
qed

text \<open>
  C4 as it was stated fails: with the record deleted, toggling node 0 on the empty selection
  leaves the selection \<open>[0]\<close>, the persisted-graph drawable attached and no teardown
  requested.
\<close>

theorem toggle_absent_graph_keeps_selection:
  "getPathgridSource c_deleted s_ticked = None
   \<and> mSelected (toggleSelected c_deleted s_ticked 0) = [0]
   \<and> mSelected (toggleSelected c_deleted s_ticked 0) \<noteq> []
   \<and> mPathgridGeometry (toggleSelected c_deleted s_ticked 0) = Some (createPathgridGeometry pg_ex)
   \<and> \<not> mRemoveGeometry (toggleSelected c_deleted s_ticked 0)"
proof -
  have "getPathgridSource c_deleted s_ticked = None"
    by (rule getPathgridSource_c_deleted) (simp add: s_ticked_eq)
  then show ?thesis
    by (simp add: toggleSelected_eq toggle_list_def) (simp add: s_ticked_eq)
qed

subsection \<open>C5 and C10: adding an edge\<close>

lemma edgeExists_from_none:
  "edgeExists_from es a b i = -1 \<longleftrightarrow> \<not> list_ex (\<lambda>e. mV0 e = uint a \<and> mV1 e = uint b) es"
  by (induction es arbitrary: i) auto

lemma edgeExists_none: "edgeExists source a b = -1 \<longleftrightarrow> \<not> has_edge source a b"
  by (simp add: edgeExists_def has_edge_def edgeExists_from_none)

lemma addEdge_eq:
  "addEdge c s commands source a b =
     commands
     @ (if has_edge source a b then []
        else edge_commands (mId s) (getIndex c (mId s)) (int (length (mEdges source))) a b)
     @ (if has_edge source b a then []
        else edge_commands (mId s) (getIndex c (mId s))
               (int (length (mEdges source)) + (if has_edge source a b then 0 else 1)) b a)"
  by (simp add: addEdge_def Let_def edgeExists_none edge_commands_def)

text \<open>
  C5: for a graph that resolves and any two nodes, \<^verbatim>\<open>applyEdge\<close> pushes, for each direction
  that is missing, the three commands append-row, set-from-column, set-to-column in this
  order, the second direction one row after the first when the first was appended: six
  commands when both directions are missing, none when both exist, three otherwise.
\<close>

theorem addEdge_command_count:
  assumes "getPathgridSource c s = Some source"
  shows "applyEdge c s commands a b =
           commands
           @ (if has_edge source a b then []
              else edge_commands (mId s) (getIndex c (mId s)) (int (length (mEdges source))) a b)
           @ (if has_edge source b a then []
              else edge_commands (mId s) (getIndex c (mId s))
                     (int (length (mEdges source)) + (if has_edge source a b then 0 else 1)) b a)
       \<and> length (applyEdge c s commands a b) =
           length commands +
             (if \<not> has_edge source a b \<and> \<not> has_edge source b a then 6
              else if has_edge source a b \<and> has_edge source b a then 0
              else 3)"
  using assms by (simp add: applyEdge_def addEdge_eq edge_commands_def)

text \<open>
  C5, an instance: the edge between nodes 0 and 1 of the two-point graph without edges.
\<close>

theorem addEdge_command_count_witness:
  "getPathgridSource c_ex s_ex = Some pg_ex
   \<and> \<not> has_edge pg_ex 0 1 \<and> \<not> has_edge pg_ex 1 0
   \<and> applyEdge c_ex s_ex [] 0 1 =
       [AddNestedCommand ''cell'' 0 ColumnId_PathgridEdges,
        ModifyCommand (index_nested 0 ColumnId_PathgridEdge0 (index_top 0 ColumnId_PathgridEdges)) 0,
        ModifyCommand (index_nested 0 ColumnId_PathgridEdge1 (index_top 0 ColumnId_PathgridEdges)) 1,
        AddNestedCommand ''cell'' 1 ColumnId_PathgridEdges,
        ModifyCommand (index_nested 1 ColumnId_PathgridEdge0 (index_top 0 ColumnId_PathgridEdges)) 1,
        ModifyCommand (index_nested 1 ColumnId_PathgridEdge1 (index_top 0 ColumnId_PathgridEdges)) 0]
   \<and> length (applyEdge c_ex s_ex [] 0 1) = 6"
proof -
  have m: "mId s_ex = ''cell''" "mEdges pg_ex = []"
    by (simp_all add: s_ex_def Pathgrid_ctor_def recreateGeometry_def pg_ex_def)
  have i: "getIndex c_ex ''cell'' = 0"
    by (simp add: getIndex_def searchId_def c_ex_def)
  have h: "\<not> has_edge pg_ex a b" for a b
    by (simp add: has_edge_def pg_ex_def)
  show ?thesis
    using addEdge_command_count [OF getPathgridSource_c_ex [OF m(1)], of "[]" 0 1]
    by (simp add: getPathgridSource_c_ex m i h edge_commands_def)
qed

text \<open>
  C10: for a graph that resolves and a node \<open>n\<close> without an edge to itself, \<^verbatim>\<open>applyEdge\<close> with
  both endpoints \<open>n\<close> pushes six commands that append two rows, one after the other, and set
  both columns of each to \<open>n\<close>: both existence checks read the graph as it was before the
  batch.
\<close>

theorem addEdge_self_loop:
  assumes "getPathgridSource c s = Some source" and "\<not> has_edge source n n"
  shows "applyEdge c s commands n n =
           commands @
           [AddNestedCommand (mId s) (int (length (mEdges source))) ColumnId_PathgridEdges,
            ModifyCommand (index_nested (int (length (mEdges source))) ColumnId_PathgridEdge0
                             (index_top (getIndex c (mId s)) ColumnId_PathgridEdges)) (uint n),
            ModifyCommand (index_nested (int (length (mEdges source))) ColumnId_PathgridEdge1
                             (index_top (getIndex c (mId s)) ColumnId_PathgridEdges)) (uint n),
            AddNestedCommand (mId s) (int (length (mEdges source)) + 1) ColumnId_PathgridEdges,
            ModifyCommand (index_nested (int (length (mEdges source)) + 1) ColumnId_PathgridEdge0
                             (index_top (getIndex c (mId s)) ColumnId_PathgridEdges)) (uint n),
            ModifyCommand (index_nested (int (length (mEdges source)) + 1) ColumnId_PathgridEdge1
                             (index_top (getIndex c (mId s)) ColumnId_PathgridEdges)) (uint n)]"
  using assms by (simp add: applyEdge_def addEdge_eq edge_commands_def)

text \<open>C10, an instance: node 1 of the two-point graph without edges.\<close>

theorem addEdge_self_loop_witness:
  "getPathgridSource c_ex s_ex = Some pg_ex \<and> \<not> has_edge pg_ex 1 1
   \<and> applyEdge c_ex s_ex [] 1 1 =
       [AddNestedCommand ''cell'' 0 ColumnId_PathgridEdges,
        ModifyCommand (index_nested 0 ColumnId_PathgridEdge0 (index_top 0 ColumnId_PathgridEdges)) 1,
        ModifyCommand (index_nested 0 ColumnId_PathgridEdge1 (index_top 0 ColumnId_PathgridEdges)) 1,
        AddNestedCommand ''cell'' 1 ColumnId_PathgridEdges,
        ModifyCommand (index_nested 1 ColumnId_PathgridEdge0 (index_top 0 ColumnId_PathgridEdges)) 1,
        ModifyCommand (index_nested 1 ColumnId_PathgridEdge1 (index_top 0 ColumnId_PathgridEdges)) 1]"
proof -
  have m: "mId s_ex = ''cell''" "mEdges pg_ex = []"
    by (simp_all add: s_ex_def Pathgrid_ctor_def recreateGeometry_def pg_ex_def)
  have i: "getIndex c_ex ''cell'' = 0"
    by (simp add: getIndex_def searchId_def c_ex_def)
  have h: "\<not> has_edge pg_ex 1 1"
    by (simp add: has_edge_def pg_ex_def)
  show ?thesis
    using addEdge_self_loop [OF getPathgridSource_c_ex [OF m(1)] h, of "[]"]
    by (simp add: getPathgridSource_c_ex m i h)
qed

subsection \<open>C6: removing the selected nodes\<close>

lemma sort_greater_rows:
  assumes "distinct xs"
  shows "map uint (sort_greater xs) = rev (sorted_list_of_set (uint ` set xs))"
proof -
  have "inj_on uint (set xs)"
    by (rule inj_onI) (rule word_uint_eqI)
  then have d: "distinct (map uint (sort_key uint xs))"
    using assms by (simp add: distinct_map)
  have "map uint (sort_key uint xs) = sorted_list_of_set (uint ` set xs)"
    by (rule sorted_distinct_set_unique) (simp_all add: d)
  then have "rev (map uint (sort_key uint xs)) = rev (sorted_list_of_set (uint ` set xs))"
    by (simp only:)
  then show ?thesis
    by (simp only: sort_greater_def rev_map)
qed

text \<open>
  C6: for an object in any state it can reach, \<^verbatim>\<open>applyRemoveNodes\<close> pushes, when the graph
  resolves, one delete-row command for each selected index, the rows strictly descending,
  and nothing when the graph is absent; in both cases the selection is empty and the
  highlight drawable removed afterwards.
\<close>

theorem applyRemoveNodes_descending:
  assumes "reachable s"
  shows "fst (applyRemoveNodes c s commands) =
           commands @
           (case getPathgridSource c s of
              Some source \<Rightarrow>
                map (\<lambda>row. DeleteNestedCommand (mId s) row ColumnId_PathgridPoints)
                  (rev (sorted_list_of_set (uint ` set (mSelected s))))
            | None \<Rightarrow> [])
       \<and> sorted_wrt (>) (rev (sorted_list_of_set (uint ` set (mSelected s))))
       \<and> length (rev (sorted_list_of_set (uint ` set (mSelected s)))) = length (mSelected s)
       \<and> mSelected (snd (applyRemoveNodes c s commands)) = []
       \<and> mSelectedGeometry (snd (applyRemoveNodes c s commands)) = None"
proof -
  have d: "distinct (mSelected s)"
    using assms by (rule reachable_distinct)
  have "inj_on uint (set (mSelected s))"
    by (rule inj_onI) (rule word_uint_eqI)
  then have "card (uint ` set (mSelected s)) = length (mSelected s)"
    using d by (simp add: card_image distinct_card)
  moreover have "sorted_wrt (>) (rev (sorted_list_of_set (uint ` set (mSelected s))))"
    by (simp add: sorted_wrt_rev)
  ultimately show ?thesis
    by (simp add: applyRemoveNodes_eq sort_greater_rows [OF d] split: option.splits)
qed

text \<open>
  C6, an instance: the selection \<open>[1, 0]\<close>, with the graph present and with the record
  deleted.
\<close>

theorem applyRemoveNodes_descending_witness:
  "reachable s_sel10
   \<and> fst (applyRemoveNodes c_ex s_sel10 []) =
       [DeleteNestedCommand ''cell'' 1 ColumnId_PathgridPoints,
        DeleteNestedCommand ''cell'' 0 ColumnId_PathgridPoints]
   \<and> fst (applyRemoveNodes c_deleted s_sel10 []) = []
   \<and> mSelected (snd (applyRemoveNodes c_deleted s_sel10 [])) = []"
proof -
  have m: "mId s_sel10 = ''cell''" "mSelected s_sel10 = [1, 0]"
    by (simp_all add: s_sel10_eq s_ticked_eq)
  have "uint ` set (mSelected s_sel10) = {0, 1}"
    by (auto simp: m)
  then have r: "rev (sorted_list_of_set (uint ` set (mSelected s_sel10))) = [1, 0]"
    by simp
  show ?thesis
    using applyRemoveNodes_descending [OF reachable_s_sel10, of c_ex "[]"]
      applyRemoveNodes_descending [OF reachable_s_sel10, of c_deleted "[]"]
    unfolding r
    by (simp add: reachable_s_sel10 getPathgridSource_c_ex getPathgridSource_c_deleted m)
qed

subsection \<open>C7: inverting twice\<close>

lemma filter_mem_eq_iff:
  fixes sel A :: "'a :: linorder list"
  assumes "sorted_wrt (<) A"
  shows "filter (\<lambda>x. x \<in> set sel) A = sel \<longleftrightarrow> sorted_wrt (<) sel \<and> set sel \<subseteq> set A"
proof
  assume eq: "filter (\<lambda>x. x \<in> set sel) A = sel"
  have "sorted_wrt (<) (filter (\<lambda>x. x \<in> set sel) A)"
    using assms by (rule sorted_wrt_filter)
  moreover have "set (filter (\<lambda>x. x \<in> set sel) A) \<subseteq> set A" by auto
  ultimately show "sorted_wrt (<) sel \<and> set sel \<subseteq> set A"
    by (simp add: eq)
next
  assume a: "sorted_wrt (<) sel \<and> set sel \<subseteq> set A"
  have s: "sorted_wrt (<) (filter (\<lambda>x. x \<in> set sel) A)"
    using assms by (rule sorted_wrt_filter)
  have "set (filter (\<lambda>x. x \<in> set sel) A) = set sel"
    using a by auto
  then show "filter (\<lambda>x. x \<in> set sel) A = sel"
    using s a by (intro sorted_distinct_set_unique) (simp_all add: strict_sorted_iff)
qed

lemma mSelected_invertSelected:
  "mSelected (invertSelected c s) =
     (case getPathgridSource c s of
        Some source \<Rightarrow> filter (\<lambda>x. x \<notin> set (mSelected s)) (all_nodes source)
      | None \<Rightarrow> [])"
  by (simp add: invertSelected_eq split: option.splits)

lemma getPathgridSource_invertSelected:
  "getPathgridSource c' (invertSelected c s) = getPathgridSource c' s"
  by (rule getPathgridSource_cong) (simp add: invertSelected_eq split: option.splits)

lemma double_invert_eq:
  assumes "getPathgridSource c s = Some source"
  shows "mSelected (invertSelected c (invertSelected c s)) =
           filter (\<lambda>x. x \<in> set (mSelected s)) (all_nodes source)"
  using assms
  by (simp add: mSelected_invertSelected getPathgridSource_invertSelected cong: filter_cong)

text \<open>
  C7, as the source has it: for a graph that resolves and is the same at both calls,
  inverting twice gives the valid indices of the original selection in ascending order,
  each once. It gives back the original selection exactly when that selection is strictly
  ascending and all its indices are below the point count (as an \<^verbatim>\<open>unsigned short\<close>).
\<close>

theorem invert_twice:
  assumes "getPathgridSource c s = Some source"
  shows "mSelected (invertSelected c (invertSelected c s)) =
           filter (\<lambda>x. x \<in> set (mSelected s)) (all_nodes source)
       \<and> (mSelected (invertSelected c (invertSelected c s)) = mSelected s \<longleftrightarrow>
            sorted_wrt (<) (mSelected s) \<and>
            (\<forall>i \<in> set (mSelected s). i < word_of_nat (length (mPoints source))))"
proof -
  have "set (mSelected s) \<subseteq> set (all_nodes source) \<longleftrightarrow>
        (\<forall>i \<in> set (mSelected s). i < word_of_nat (length (mPoints source)))"
    by (auto simp: set_all_nodes)
  then show ?thesis
    using filter_mem_eq_iff [OF all_nodes_sorted, of "mSelected s" source]
    by (simp add: double_invert_eq [OF assms])
qed

text \<open>C7, an instance: the selection \<open>[0, 1]\<close> on the two-point graph.\<close>

theorem invert_twice_witness:
  "getPathgridSource c_ex s_sel01 = Some pg_ex
   \<and> mSelected s_sel01 = [0, 1]
   \<and> sorted_wrt (<) (mSelected s_sel01)
   \<and> (0 :: node) < word_of_nat (length (mPoints pg_ex))
   \<and> (1 :: node) < word_of_nat (length (mPoints pg_ex))
   \<and> mSelected (invertSelected c_ex (invertSelected c_ex s_sel01)) = mSelected s_sel01"
proof -
  have m: "mId s_sel01 = ''cell''" "mSelected s_sel01 = [0, 1]"
    by (simp_all add: s_sel01_eq s_ticked_eq)
  have p: "length (mPoints pg_ex) = 2"
    by (simp add: pg_ex_def)
  show ?thesis
    using invert_twice [OF getPathgridSource_c_ex [OF m(1)]]
    by (simp add: m p getPathgridSource_c_ex all_nodes_pg_ex)
qed

text \<open>C7 as it was stated fails: inverting twice turns the selection \<open>[1, 0]\<close> into \<open>[0, 1]\<close>.\<close>

theorem invert_twice_sorts:
  "getPathgridSource c_ex s_sel10 = Some pg_ex
   \<and> mSelected s_sel10 = [1, 0]
   \<and> mSelected (invertSelected c_ex (invertSelected c_ex s_sel10)) = [0, 1]
   \<and> mSelected (invertSelected c_ex (invertSelected c_ex s_sel10)) \<noteq> mSelected s_sel10"
proof -
  have m: "mId s_sel10 = ''cell''" "mSelected s_sel10 = [1, 0]"
    by (simp_all add: s_sel10_eq s_ticked_eq)
  show ?thesis
    by (simp add: double_invert_eq [OF getPathgridSource_c_ex [OF m(1)]] m getPathgridSource_c_ex
        all_nodes_pg_ex)
qed

subsection \<open>C8: clamping to the cell\<close>

text \<open>
  C8: \<^verbatim>\<open>clampToCell\<close> returns its argument for an interior object and clamps it into
  \<open>[0, 8192]\<close> for an exterior one; \<open>-50\<close> stays \<open>-50\<close> in an interior, and in an exterior
  \<open>-50\<close> becomes \<open>0\<close> and \<open>9000\<close> becomes \<open>8192\<close>.
\<close>

theorem clampToCell_spec:
  "clampToCell s v = (if mInterior s then v else max 0 (min REAL_SIZE v))
   \<and> REAL_SIZE = 8192
   \<and> clampToCell (s\<lparr>mInterior := True\<rparr>) (-50) = -50
   \<and> clampToCell (s\<lparr>mInterior := False\<rparr>) (-50) = 0
   \<and> clampToCell (s\<lparr>mInterior := False\<rparr>) 9000 = 8192"
  by (simp add: clampToCell_def REAL_SIZE_def Let_def)

subsection \<open>C9: the pair scan of edge removal\<close>

lemma removeEdges_inner_Some:
  "i < j \<Longrightarrow> \<exists>rows. removeEdges_inner source sel i j rowsToRemove = Some rows"
proof (induction source sel i j rowsToRemove rule: removeEdges_inner.induct)
  case (1 source sel i j rowsToRemove)
  show ?case
  proof (cases "j < length sel")
    case True
    with "1.prems" have "i < length sel" by simp
    then have a: "vector_at sel i = Some (sel ! i)" "vector_at sel j = Some (sel ! j)"
      using True by (simp_all add: vector_at_def)
    from "1.prems" have "i < j + 1" by simp
    then show ?thesis
      using "1.IH" [OF True _ a(1) a(2) refl refl refl refl] True a
      by (subst removeEdges_inner.simps) (simp add: Let_def)
  next
    case False
    then show ?thesis by (subst removeEdges_inner.simps) simp
  qed
qed

lemma removeEdges_outer_Some:
  "\<exists>rows. removeEdges_outer source sel i rowsToRemove = Some rows"
proof (induction source sel i rowsToRemove rule: removeEdges_outer.induct)
  case (1 source sel i rowsToRemove)
  show ?case
  proof (cases "i \<le> length sel")
    case True
    obtain rows1 where r: "removeEdges_inner source sel i (i + 1) rowsToRemove = Some rows1"
      using removeEdges_inner_Some [of i "i + 1" source sel rowsToRemove] by auto
    show ?thesis
      using "1.IH" [OF True r] True r by (subst removeEdges_outer.simps) simp
  next
    case False
    then show ?thesis by (subst removeEdges_outer.simps) simp
  qed
qed

text \<open>
  C9: the pair scan never reads outside the selection, so \<^verbatim>\<open>applyRemoveEdges\<close> always has a
  result, although the outer index runs up to the size of the selection inclusive: at that
  index the inner loop starts beyond its bound and hands the rows back untouched, where a
  read of the selection would have been out of range.
\<close>

theorem removeEdges_scan_in_bounds:
  "applyRemoveEdges c s commands \<noteq> None
   \<and> removeEdges_outer source sel 0 {} \<noteq> None
   \<and> removeEdges_inner source sel (length sel) (length sel + 1) rowsToRemove = Some rowsToRemove
   \<and> vector_at sel (length sel) = None"
proof -
  have "applyRemoveEdges c s commands \<noteq> None"
  proof (cases "getPathgridSource c s")
    case None
    then show ?thesis by (simp add: applyRemoveEdges_def)
  next
    case (Some src)
    obtain rows where "removeEdges_outer src (mSelected s) 0 {} = Some rows"
      using removeEdges_outer_Some [of src "mSelected s" 0 "{}"] by auto
    with Some show ?thesis by (simp add: applyRemoveEdges_def)
  qed
  moreover have "removeEdges_outer source sel 0 {} \<noteq> None"
    using removeEdges_outer_Some [of source sel 0 "{}"] by auto
  moreover have "removeEdges_inner source sel (length sel) (length sel + 1) rowsToRemove = Some rowsToRemove"
    by (subst removeEdges_inner.simps) simp
  ultimately show ?thesis by (simp add: vector_at_def)
qed

end
